theory Spec2Isabelle
  imports Main
begin

section \<open>The run registry of \<^verbatim>\<open>src/dispatcher.ts\<close>\<close>

text \<open>
  The class \<^verbatim>\<open>Dispatcher\<close> keeps a map from run identifiers to run records and
  a counter. Its three public methods and the completion callback it hands to
  \<^verbatim>\<open>execFile\<close> are embedded as functions on an explicit state. Every reading of the
  clock (\<^verbatim>\<open>new Date()\<close>) is an argument \<open>now\<close>, in milliseconds.
\<close>

subsection \<open>JavaScript values and errors\<close>

text \<open>
  \<^verbatim>\<open>TestResult\<close> is declared in a file that is not part of the sources at hand, and
  at run time the decoder may hand back any JavaScript value. Numbers are integers here
  (no NaN, no fractions); an object is a list of properties.
\<close>

datatype js_value =
    JUndefined
  | JNull
  | JBool bool
  | JNum int
  | JStr string
  | JObj "(string \<times> js_value) list"

text \<open>The truth value JavaScript gives a value in \<^verbatim>\<open>if (v)\<close>.\<close>

fun truthy :: "js_value \<Rightarrow> bool" where
  "truthy JUndefined = False"
| "truthy JNull = False"
| "truthy (JBool b) = b"
| "truthy (JNum n) = (n \<noteq> 0)"
| "truthy (JStr s) = (s \<noteq> [])"
| "truthy (JObj ps) = True"

text \<open>
  Error objects. \<open>NotFound\<close> is the class of line 5; \<open>Error\<close> is \<^verbatim>\<open>new Error(msg)\<close>;
  \<open>ExecException\<close> is what \<^verbatim>\<open>execFile\<close> passes as the first argument of its callback;
  \<open>DecodeError\<close> is what the decoder throws; \<open>TypeError\<close> is what reading a property of
  \<^verbatim>\<open>undefined\<close> throws. All of them are objects, hence truthy.
\<close>

datatype js_error =
    NotFound string
  | Error string
  | ExecException string
  | DecodeError string
  | TypeError

subsection \<open>The collaborators\<close>

record run_command =
  command :: string
  args :: "string list"

text \<open>
  The interface \<^verbatim>\<open>TestModule\<close> is imported from \<^verbatim>\<open>./test\<close>; the dispatcher uses the three
  methods below. A decoder that throws returns \<open>Inl\<close>.
\<close>

record test_module =
  has :: "string \<Rightarrow> bool"
  makeRunCommand :: "string \<Rightarrow> run_command"
  decodeResult :: "string \<Rightarrow> js_error + js_value"

text \<open>
  Modelled from the spec: the process handle \<^verbatim>\<open>ChildProcess\<close> belongs to the platform and
  is not in the sources. The spec asks of it a flag for "process was killed" that can be
  read after the fact, and one completion notification per process. \<open>exited\<close> records that
  the platform has seen the process end and has delivered that notification.
\<close>

record child_process =
  killed :: bool
  exited :: bool

text \<open>
  Modelled from the spec: \<^verbatim>\<open>ChildProcess.kill\<close>, also the platform's. It sends the
  termination signal and raises \<open>killed\<close>; sent to a process that has already ended it has
  no effect.
\<close>

definition kill :: "child_process \<Rightarrow> child_process" where
  "kill p = (if exited p then p else p\<lparr>killed := True\<rparr>)"

subsection \<open>Run records and the registry\<close>

text \<open>The answer of \<^verbatim>\<open>getStatus\<close> (declared first, so that the bare field names below
  are those of the run record).\<close>

record status_response =
  suite :: string
  status :: string
  runtime :: int
  error :: "js_error option"
  result :: "js_value option"

text \<open>The interface \<^verbatim>\<open>Run\<close> (lines 8 to 15); an optional field that is absent is \<open>None\<close>.\<close>

record run =
  process :: child_process
  suite :: string
  started :: int
  finished :: "int option"
  result :: "js_value option"
  error :: "js_error option"

text \<open>
  The fields of \<^verbatim>\<open>Dispatcher\<close>. \<open>nextId\<close> is a JavaScript number that only ever holds
  positive integers; it is a natural number here. \<open>spawned\<close> is not a field of the class:
  it logs the commands handed to \<^verbatim>\<open>execFile\<close>, most recent first, so that launching a
  process is visible in the state.
\<close>

record dispatcher =
  runList :: "string \<rightharpoonup> run"
  nextId :: nat
  spawned :: "run_command list"

definition new_Dispatcher :: dispatcher where
  "new_Dispatcher = \<lparr>runList = Map.empty, nextId = 1, spawned = []\<rparr>"

subsection \<open>Rendering the counter\<close>

text \<open>\<^verbatim>\<open>Number.prototype.toString\<close> on a non-negative integer: its decimal digits.\<close>

definition digit :: "nat \<Rightarrow> char" where
  "digit n = ''0123456789'' ! n"

function toString :: "nat \<Rightarrow> string" where
  "toString n = (if n < 10 then [digit n] else toString (n div 10) @ [digit (n mod 10)])"
  by pat_completeness auto
termination
  by (relation "measure (\<lambda>n. n)") auto

declare toString.simps [simp del]

subsection \<open>The operations\<close>

text \<open>Lines 146 to 148: the counter is read, then incremented.\<close>

definition generateId :: "dispatcher \<Rightarrow> string \<times> dispatcher" where
  "generateId d = (toString (nextId d), d\<lparr>nextId := nextId d + 1\<rparr>)"

text \<open>Modelled from the spec: \<^verbatim>\<open>cp.execFile\<close>, the platform's. It launches the command
  and returns the handle of the new process; the callback it is given is \<open>on_exit\<close> below.\<close>

definition execFile :: "run_command \<Rightarrow> dispatcher \<Rightarrow> child_process \<times> dispatcher" where
  "execFile cmd d = (\<lparr>killed = False, exited = False\<rparr>, d\<lparr>spawned := cmd # spawned d\<rparr>)"

text \<open>Lines 78 to 108. The result is the returned identifier or the thrown error, and the
  state after the call.\<close>

definition start :: "test_module \<Rightarrow> dispatcher \<Rightarrow> int \<Rightarrow> string \<Rightarrow> (js_error + string) \<times> dispatcher" where
  "start M d now s =
     (if has M s then
        (let (ident, d1) = generateId d;
             cmd = makeRunCommand M s;
             (p, d2) = execFile cmd d1
         in (Inr ident,
             d2\<lparr>runList := (runList d2)(ident \<mapsto>
                  \<lparr>process = p, suite = s, started = now,
                   finished = None, result = None, error = None\<rparr>)\<rparr>))
      else (Inl (NotFound s), d))"

text \<open>
  Lines 82 to 99, the callback given to \<^verbatim>\<open>execFile\<close>, for the run \<open>ident\<close>. \<open>err\<close> is
  the callback's first argument (\<^verbatim>\<open>null\<close> is \<open>None\<close>). \<^verbatim>\<open>!stdout && stderr\<close> on strings
  is "stdout is empty and stderr is not".
\<close>

definition on_exit ::
  "test_module \<Rightarrow> string \<Rightarrow> js_error option \<Rightarrow> string \<Rightarrow> string \<Rightarrow> int \<Rightarrow> dispatcher
     \<Rightarrow> (js_error + unit) \<times> dispatcher" where
  "on_exit M ident err stdout stderr now d =
     (case runList d ident of
        None \<Rightarrow> (Inl TypeError, d)
      | Some r \<Rightarrow>
          (let r1 = r\<lparr>finished := Some now\<rparr>;
               r2 = (case err of
                       Some e \<Rightarrow> r1\<lparr>error := Some e\<rparr>
                     | None \<Rightarrow>
                         if stdout = [] \<and> stderr \<noteq> [] then r1\<lparr>error := Some (Error stderr)\<rparr>
                         else (case decodeResult M stdout of
                                 Inr v \<Rightarrow> r1\<lparr>result := Some v\<rparr>
                               | Inl e \<Rightarrow> r1\<lparr>error := Some e\<rparr>))
           in (Inr (), d\<lparr>runList := (runList d)(ident \<mapsto> r2)\<rparr>)))"

text \<open>The platform observes the end of the process of run \<open>ident\<close>: the handle is marked,
  then the callback runs.\<close>

definition process_exit ::
  "test_module \<Rightarrow> string \<Rightarrow> js_error option \<Rightarrow> string \<Rightarrow> string \<Rightarrow> int \<Rightarrow> dispatcher
     \<Rightarrow> (js_error + unit) \<times> dispatcher" where
  "process_exit M ident err stdout stderr now d =
     (case runList d ident of
        None \<Rightarrow> on_exit M ident err stdout stderr now d
      | Some r \<Rightarrow>
          on_exit M ident err stdout stderr now
            (d\<lparr>runList := (runList d)(ident \<mapsto> r\<lparr>process := (process r)\<lparr>exited := True\<rparr>\<rparr>)\<rparr>))"

text \<open>
  Lines 110 to 136. The tests \<^verbatim>\<open>if (run.error)\<close> and \<^verbatim>\<open>if (run.result)\<close> are truth
  tests: an error object is always truthy, a result need not be. \<^verbatim>\<open>run.finished!\<close> is
  unchecked at run time, so an absent timestamp makes \<^verbatim>\<open>.getTime()\<close> throw.
\<close>

definition getStatus :: "dispatcher \<Rightarrow> int \<Rightarrow> string \<Rightarrow> js_error + status_response" where
  "getStatus d now ident =
     (case runList d ident of
        None \<Rightarrow> Inl (NotFound ident)
      | Some r \<Rightarrow>
          (case error r of
             Some e \<Rightarrow>
               (case finished r of
                  None \<Rightarrow> Inl TypeError
                | Some f \<Rightarrow>
                    Inr \<lparr>status_response.suite = suite r,
                         status = (if killed (process r) then ''cancelled'' else ''error''),
                         runtime = f - started r,
                         status_response.error = Some e,
                         status_response.result = None\<rparr>)
           | None \<Rightarrow>
               if (case result r of None \<Rightarrow> False | Some v \<Rightarrow> truthy v) then
                 (case finished r of
                    None \<Rightarrow> Inl TypeError
                  | Some f \<Rightarrow>
                      Inr \<lparr>status_response.suite = suite r,
                           status = ''completed'',
                           runtime = f - started r,
                           status_response.error = None,
                           status_response.result = result r\<rparr>)
               else
                 Inr \<lparr>status_response.suite = suite r,
                      status = ''active'',
                      runtime = now - started r,
                      status_response.error = None,
                      status_response.result = None\<rparr>))"

text \<open>Lines 138 to 144.\<close>

definition cancel :: "dispatcher \<Rightarrow> string \<Rightarrow> (js_error + unit) \<times> dispatcher" where
  "cancel d ident =
     (case runList d ident of
        None \<Rightarrow> (Inl (NotFound ident), d)
      | Some r \<Rightarrow> (Inr (), d\<lparr>runList := (runList d)(ident \<mapsto> r\<lparr>process := kill (process r)\<rparr>)\<rparr>))"

subsection \<open>The class \<^verbatim>\<open>LocalRun\<close>\<close>

text \<open>
  Lines 41 to 63. The class is not used by \<^verbatim>\<open>Dispatcher\<close>; it has the fields of a run
  record and derives status and runtime from them, so its two methods are functions on a run
  record here. \<^verbatim>\<open>!this.finished\<close> tests a \<^verbatim>\<open>Date\<close> object, which is truthy whenever it is
  present.
\<close>

definition toStatus :: "run \<Rightarrow> string" where
  "toStatus r =
     (if finished r = None then ''active''
      else if (case result r of None \<Rightarrow> False | Some v \<Rightarrow> truthy v) then ''completed''
      else if killed (process r) then ''cancelled''
      else ''error'')"

definition toRuntime :: "run \<Rightarrow> int \<Rightarrow> int" where
  "toRuntime r now =
     (case finished r of
        Some f \<Rightarrow> f - started r
      | None \<Rightarrow> now - started r)"

subsection \<open>The completion rule in the words of the specification\<close>

text \<open>
  The outcome of a completion notification as the specification words it: a reported error
  first; else empty standard output with diagnostic output is an error wrapping the
  diagnostic text; else the decoder decides. This definition follows the specification, not
  the source; \<open>on_exit\<close> above is the source.
\<close>

datatype outcome = Failure js_error | Result js_value

definition spec_outcome :: "test_module \<Rightarrow> js_error option \<Rightarrow> string \<Rightarrow> string \<Rightarrow> outcome" where
  "spec_outcome M err stdout stderr =
     (case err of
        Some e \<Rightarrow> Failure e
      | None \<Rightarrow>
          if stdout = [] \<and> stderr \<noteq> [] then Failure (Error stderr)
          else (case decodeResult M stdout of
                  Inl e \<Rightarrow> Failure e
                | Inr v \<Rightarrow> Result v))"

subsection \<open>Histories\<close>

text \<open>
  What can happen to a registry: a call of one of its methods, or the end of the process of
  one of its runs. The platform notifies the end of a process once, and only of a process
  that was launched, which is what \<open>enabled\<close> says.
\<close>

datatype event =
    Start string int
  | Exit string "js_error option" string string int
  | Cancel string
  | GetStatus string int

fun apply_event :: "test_module \<Rightarrow> dispatcher \<Rightarrow> event \<Rightarrow> dispatcher" where
  "apply_event M d (Start s now) = snd (start M d now s)"
| "apply_event M d (Exit ident err out diag now) = snd (process_exit M ident err out diag now d)"
| "apply_event M d (Cancel ident) = snd (cancel d ident)"
| "apply_event M d (GetStatus ident now) = d"

fun enabled :: "dispatcher \<Rightarrow> event \<Rightarrow> bool" where
  "enabled d (Exit ident err out diag now) =
     (case runList d ident of None \<Rightarrow> False | Some r \<Rightarrow> \<not> exited (process r))"
| "enabled d (Start s now) = True"
| "enabled d (Cancel ident) = True"
| "enabled d (GetStatus ident now) = True"

fun feasible :: "test_module \<Rightarrow> dispatcher \<Rightarrow> event list \<Rightarrow> bool" where
  "feasible M d [] = True"
| "feasible M d (e # es) = (enabled d e \<and> feasible M (apply_event M d e) es)"

fun exec :: "test_module \<Rightarrow> dispatcher \<Rightarrow> event list \<Rightarrow> dispatcher" where
  "exec M d [] = d"
| "exec M d (e # es) = exec M (apply_event M d e) es"

text \<open>The \<^verbatim>\<open>start\<close> calls that pass the guard of line 79.\<close>

fun accepted :: "test_module \<Rightarrow> event \<Rightarrow> bool" where
  "accepted M (Start s now) = has M s"
| "accepted M (Exit ident err out diag now) = False"
| "accepted M (Cancel ident) = False"
| "accepted M (GetStatus ident now) = False"

text \<open>The identifiers returned by the \<^verbatim>\<open>start\<close> calls of a history, in the order of the
  calls.\<close>

fun started_ids :: "test_module \<Rightarrow> dispatcher \<Rightarrow> event list \<Rightarrow> string list" where
  "started_ids M d [] = []"
| "started_ids M d (Start s now # es) =
     (case fst (start M d now s) of
        Inr ident \<Rightarrow> ident # started_ids M (apply_event M d (Start s now)) es
      | Inl e \<Rightarrow> started_ids M (apply_event M d (Start s now)) es)"
| "started_ids M d (e # es) = started_ids M (apply_event M d e) es"

subsection \<open>Reachable registries\<close>

text \<open>
  What holds of every registry a history can produce: each key is the rendering of a counter
  value already issued; a run without a finishing time has no outcome; and the platform has
  seen the end of exactly the processes whose runs have a finishing time.
\<close>

definition wf :: "dispatcher \<Rightarrow> bool" where
  "wf d \<longleftrightarrow>
     (\<forall>ident r. runList d ident = Some r \<longrightarrow>
        (\<exists>k. k < nextId d \<and> ident = toString k)
        \<and> (finished r = None \<longrightarrow> result r = None \<and> error r = None)
        \<and> (exited (process r) \<longleftrightarrow> finished r \<noteq> None))"

text \<open>A catalog with the one suite \<open>unit\<close>, whose decoder reads \<open>null\<close> and \<open>0\<close> as the
  values they denote, rejects empty output and wraps anything else in an object.\<close>

definition sample_module :: test_module where
  "sample_module =
     \<lparr>has = (\<lambda>s. s = ''unit''),
      makeRunCommand = (\<lambda>s. \<lparr>command = ''run-suite'', args = [s]\<rparr>),
      decodeResult = (\<lambda>out.
         if out = [] then Inl (DecodeError ''unexpected end of input'')
         else if out = ''null'' then Inr JNull
         else if out = ''0'' then Inr (JNum 0)
         else Inr (JObj [(''raw'', JStr out)]))\<rparr>"

section \<open>Properties\<close>

subsection \<open>Identifiers are rendered injectively\<close>

lemma digit_inj: "a < 10 \<Longrightarrow> b < 10 \<Longrightarrow> digit a = digit b \<Longrightarrow> a = b"
  unfolding digit_def
  by (auto simp: less_Suc_eq numeral_eq_Suc nth_Cons split: nat.splits)

lemma toString_nonempty: "toString n \<noteq> []"
  by (subst toString.simps) simp

lemma toString_inj: "toString m = toString n \<Longrightarrow> m = n"
proof (induction m arbitrary: n rule: toString.induct)
  case (1 m)
  show ?case
  proof (cases "m < 10")
    case small_m: True
    show ?thesis
    proof (cases "n < 10")
      case True
      with small_m "1.prems" have "[digit m] = [digit n]"
        by (simp add: toString.simps [of m] toString.simps [of n])
      with small_m True show ?thesis
        by (simp add: digit_inj)
    next
      case False
      then have "toString n = toString (n div 10) @ [digit (n mod 10)]"
        by (subst toString.simps) simp
      moreover from small_m have "toString m = [digit m]"
        by (subst toString.simps) simp
      ultimately show ?thesis
        using "1.prems" toString_nonempty [of "n div 10"] by simp
    qed
  next
    case big_m: False
    then have m_eq: "toString m = toString (m div 10) @ [digit (m mod 10)]"
      by (subst toString.simps) simp
    show ?thesis
    proof (cases "n < 10")
      case True
      then have "toString n = [digit n]"
        by (subst toString.simps) simp
      with m_eq "1.prems" toString_nonempty [of "m div 10"] show ?thesis
        by simp
    next
      case False
      then have "toString n = toString (n div 10) @ [digit (n mod 10)]"
        by (subst toString.simps) simp
      with m_eq "1.prems"
      have front_eq: "toString (m div 10) = toString (n div 10)"
        and tail_eq: "digit (m mod 10) = digit (n mod 10)"
        by simp_all
      from "1.IH" [OF big_m front_eq] have "m div 10 = n div 10" .
      moreover from tail_eq have "m mod 10 = n mod 10"
        by (simp add: digit_inj)
      ultimately show ?thesis
        by (metis div_mult_mod_eq)
    qed
  qed
qed

subsection \<open>The invariant is kept by every event\<close>

lemma wf_new: "wf new_Dispatcher"
  by (simp add: wf_def new_Dispatcher_def)

lemma fresh_id: "wf d \<Longrightarrow> runList d (toString (nextId d)) = None"
proof (rule ccontr)
  assume w: "wf d" and "runList d (toString (nextId d)) \<noteq> None"
  then obtain r where "runList d (toString (nextId d)) = Some r" by auto
  with w obtain k where "k < nextId d" "toString (nextId d) = toString k"
    unfolding wf_def by blast
  then show False using toString_inj by blast
qed

lemma wf_start:
  assumes w: "wf d"
  shows "wf (snd (start M d now s))"
proof (cases "has M s")
  case False
  with w show ?thesis by (simp add: start_def)
next
  case True
  let ?new = "\<lparr>process = \<lparr>killed = False, exited = False\<rparr>, suite = s, started = now,
                   finished = None, result = None, error = None\<rparr>"
  from True have rl: "runList (snd (start M d now s)) = (runList d)(toString (nextId d) \<mapsto> ?new)"
    and nx: "nextId (snd (start M d now s)) = Suc (nextId d)"
    by (simp_all add: start_def generateId_def execFile_def)
  show ?thesis
    unfolding wf_def
  proof (intro allI impI)
    fix ident r
    assume look: "runList (snd (start M d now s)) ident = Some r"
    show "(\<exists>k. k < nextId (snd (start M d now s)) \<and> ident = toString k)
        \<and> (finished r = None \<longrightarrow> result r = None \<and> error r = None)
        \<and> (exited (process r) \<longleftrightarrow> finished r \<noteq> None)"
    proof (cases "ident = toString (nextId d)")
      case True
      with look rl have "r = ?new" by simp
      with True nx show ?thesis by auto
    next
      case False
      with look rl have "runList d ident = Some r" by simp
      with w have old: "(\<exists>k. k < nextId d \<and> ident = toString k)
        \<and> (finished r = None \<longrightarrow> result r = None \<and> error r = None)
        \<and> (exited (process r) \<longleftrightarrow> finished r \<noteq> None)"
        unfolding wf_def by blast
      then obtain k where "k < nextId d" "ident = toString k" by blast
      then have "k < Suc (nextId d) \<and> ident = toString k" by simp
      with old nx show ?thesis by metis
    qed
  qed
qed

lemma wf_cancel: "wf d \<Longrightarrow> wf (snd (cancel d ident))"
  unfolding wf_def cancel_def kill_def
  by (auto split: option.splits)

lemma wf_process_exit: "wf d \<Longrightarrow> wf (snd (process_exit M ident err out diag now d))"
  unfolding wf_def process_exit_def on_exit_def
  by (auto simp: Let_def split: option.splits sum.splits)

lemma wf_apply_event: "wf d \<Longrightarrow> wf (apply_event M d e)"
  by (cases e) (simp_all add: wf_start wf_cancel wf_process_exit)

lemma wf_exec: "wf d \<Longrightarrow> wf (exec M d es)"
  by (induction es arbitrary: d) (simp_all add: wf_apply_event)

subsection \<open>A finished run is never touched again\<close>

lemma exec_append: "exec M d (xs @ ys) = exec M (exec M d xs) ys"
  by (induction xs arbitrary: d) simp_all

lemma feasible_append:
  "feasible M d (xs @ ys) \<longleftrightarrow> feasible M d xs \<and> feasible M (exec M d xs) ys"
  by (induction xs arbitrary: d) auto

lemma start_keeps:
  assumes "wf d" and "runList d ident = Some r"
  shows "runList (snd (start M d now s)) ident = Some r"
proof -
  from assms have "ident \<noteq> toString (nextId d)"
    using fresh_id by fastforce
  with assms(2) show ?thesis
    by (simp add: start_def generateId_def execFile_def)
qed

lemma cancel_finished:
  assumes "wf d" and "runList d ident = Some r" and "finished r \<noteq> None"
  shows "cancel d ident = (Inr (), d)"
proof -
  from assms have "exited (process r)" unfolding wf_def by blast
  then have "r\<lparr>process := kill (process r)\<rparr> = r" by (simp add: kill_def)
  with assms(2) show ?thesis
    by (simp add: cancel_def fun_upd_idem)
qed

lemma cancel_keeps:
  assumes "wf d" and "runList d ident = Some r" and "finished r \<noteq> None"
  shows "runList (snd (cancel d other)) ident = Some r"
proof (cases "other = ident")
  case True
  with assms show ?thesis by (simp add: cancel_finished)
next
  case False
  with assms(2) show ?thesis
    by (simp add: cancel_def split: option.splits)
qed

lemma exit_keeps:
  assumes "wf d" and "runList d ident = Some r" and "finished r \<noteq> None"
    and "enabled d (Exit other err out diag now)"
  shows "runList (snd (process_exit M other err out diag now d)) ident = Some r"
proof -
  from assms(1-3) have "exited (process r)" unfolding wf_def by blast
  with assms(2,4) have "other \<noteq> ident" by auto
  with assms(2) show ?thesis
    by (simp add: process_exit_def on_exit_def Let_def split: option.splits)
qed

lemma event_keeps:
  assumes "wf d" and "runList d ident = Some r" and "finished r \<noteq> None"
    and "enabled d e"
  shows "runList (apply_event M d e) ident = Some r"
proof (cases e)
  case (Start s now)
  with assms show ?thesis by (simp add: start_keeps)
next
  case (Exit other err out diag now)
  with assms show ?thesis by (simp add: exit_keeps)
next
  case (Cancel other)
  with assms show ?thesis by (simp add: cancel_keeps)
next
  case (GetStatus other now)
  with assms show ?thesis by simp
qed

lemma exec_keeps:
  assumes "wf d" and "feasible M d es" and "runList d ident = Some r" and "finished r \<noteq> None"
  shows "runList (exec M d es) ident = Some r"
  using assms
proof (induction es arbitrary: d)
  case Nil
  then show ?case by simp
next
  case (Cons e es)
  from Cons.prems have "runList (apply_event M d e) ident = Some r"
    by (simp add: event_keeps)
  moreover from Cons.prems have "wf (apply_event M d e)" "feasible M (apply_event M d e) es"
    by (simp_all add: wf_apply_event)
  ultimately show ?case
    using Cons.IH Cons.prems(4) by simp
qed

subsection \<open>Small facts for the examples and for \<open>getStatus\<close>\<close>

lemma toString_small: "n < 10 \<Longrightarrow> toString n = [digit n]"
  by (simp add: toString.simps)

lemma toString_1: "toString (Suc 0) = ''1''"
  by (simp add: toString_small digit_def)

lemma toString_2: "toString 2 = ''2''"
  by (simp add: toString_small digit_def)

lemma wf_reach: "feasible M new_Dispatcher es \<Longrightarrow> wf (exec M new_Dispatcher es)"
  by (simp add: wf_exec wf_new)

lemma getStatus_registered:
  "getStatus d now ident = Inr st \<Longrightarrow> \<exists>r. runList d ident = Some r"
  by (cases "runList d ident") (simp_all add: getStatus_def)

lemma getStatus_terminal_outcome:
  assumes "runList d ident = Some r" and "getStatus d now ident = Inr st"
    and "status st \<noteq> ''active''"
  shows "error r \<noteq> None \<or> (\<exists>v. result r = Some v \<and> truthy v)"
  using assms
  by (auto simp: getStatus_def split: option.splits if_splits)

lemma getStatus_terminal_same:
  assumes "runList d ident = Some r" and "getStatus d now ident = Inr st"
    and "status st \<noteq> ''active''" and "runList d' ident = Some r"
  shows "getStatus d' now' ident = Inr st"
  using assms
  by (auto simp: getStatus_def split: option.splits if_splits)

lemma wf_outcome_finished:
  assumes "wf d" and "runList d ident = Some r"
    and "error r \<noteq> None \<or> (\<exists>v. result r = Some v \<and> truthy v)"
  shows "finished r \<noteq> None"
  using assms unfolding wf_def by fastforce

lemma wf_unfinished:
  assumes "wf d" and "runList d ident = Some r" and "finished r = None"
  shows "result r = None \<and> error r = None \<and> \<not> exited (process r)"
  using assms unfolding wf_def by blast

lemma sample_null_run:
  "runList (exec sample_module new_Dispatcher [Start ''unit'' 5, Exit ''1'' None ''null'' [] 9]) ''1''
     = Some \<lparr>process = \<lparr>killed = False, exited = True\<rparr>, suite = ''unit'', started = 5,
             finished = Some 9, result = Some JNull, error = None\<rparr>"
  by (simp add: sample_module_def new_Dispatcher_def start_def generateId_def execFile_def
      process_exit_def on_exit_def toString_1)

lemma sample_boom_run:
  "runList (exec sample_module new_Dispatcher [Start ''unit'' 5, Exit ''1'' None [] ''boom'' 9]) ''1''
     = Some \<lparr>process = \<lparr>killed = False, exited = True\<rparr>, suite = ''unit'', started = 5,
             finished = Some 9, result = None, error = Some (Error ''boom'')\<rparr>"
  by (simp add: sample_module_def new_Dispatcher_def start_def generateId_def execFile_def
      process_exit_def on_exit_def toString_1)

lemma sample_boom_feasible:
  "feasible sample_module new_Dispatcher [Start ''unit'' 5, Exit ''1'' None [] ''boom'' 9]"
  by (simp add: sample_module_def new_Dispatcher_def start_def generateId_def execFile_def
      toString_1)

subsection \<open>The counter\<close>

lemma nextId_start: "nextId (snd (start M d now s)) = (if has M s then Suc (nextId d) else nextId d)"
  by (simp add: start_def generateId_def execFile_def)

lemma nextId_cancel: "nextId (snd (cancel d ident)) = nextId d"
  by (simp add: cancel_def split: option.splits)

lemma nextId_process_exit: "nextId (snd (process_exit M ident err out diag now d)) = nextId d"
  by (simp add: process_exit_def on_exit_def Let_def split: option.splits)

lemma nextId_apply_event:
  "nextId (apply_event M d e) = (if accepted M e then Suc (nextId d) else nextId d)"
  by (cases e) (simp_all add: nextId_start nextId_cancel nextId_process_exit)

lemma fst_start: "fst (start M d now s) = (if has M s then Inr (toString (nextId d)) else Inl (NotFound s))"
  by (simp add: start_def generateId_def execFile_def)

lemma nextId_exec: "nextId (exec M d es) = nextId d + length (filter (accepted M) es)"
  by (induction es arbitrary: d) (simp_all add: nextId_apply_event)

lemma started_ids_from:
  "started_ids M d es = map toString [nextId d ..< nextId d + length (filter (accepted M) es)]"
proof (induction es arbitrary: d)
  case Nil
  show ?case by simp
next
  case (Cons e es)
  show ?case
  proof (cases e)
    case (Start s now)
    show ?thesis
    proof (cases "has M s")
      case True
      let ?k = "length (filter (accepted M) es)"
      from True have "started_ids M (snd (start M d now s)) es
           = map toString [Suc (nextId d) ..< Suc (nextId d) + ?k]"
        using Cons.IH [of "snd (start M d now s)"] by (simp only: nextId_start if_True)
      moreover have "[nextId d ..< nextId d + Suc ?k]
           = nextId d # [Suc (nextId d) ..< Suc (nextId d) + ?k]"
        by (simp add: upt_conv_Cons del: upt_Suc)
      ultimately show ?thesis
        using True Start by (simp add: fst_start del: upt_Suc)
    next
      case False
      with Start Cons.IH [of "snd (start M d now s)"] show ?thesis
        by (simp add: fst_start nextId_start)
    qed
  next
    case (Exit ident err out diag now)
    with Cons.IH [of "snd (process_exit M ident err out diag now d)"] show ?thesis
      by (simp add: nextId_process_exit)
  next
    case (Cancel ident)
    with Cons.IH [of "snd (cancel d ident)"] show ?thesis
      by (simp add: nextId_cancel)
  next
    case (GetStatus ident now)
    with Cons.IH [of d] show ?thesis by simp
  qed
qed

lemma distinct_rendered: "distinct (map toString [a ..< b])"
  by (simp add: distinct_map inj_on_def toString_inj)

subsection \<open>Terminal statuses\<close>

text \<open>
  C1. Once \<open>getStatus\<close> has answered for a run with a status other than \<open>active\<close>, it gives
  the same answer (status, runtime and all) after any further history and at any later
  clock reading; and \<open>cancel\<close> on that run is accepted and leaves the registry as it is.
\<close>

theorem terminal_status_frozen:
  assumes "feasible M new_Dispatcher (pre @ post)"
    and "getStatus (exec M new_Dispatcher pre) now ident = Inr st"
    and "status st \<noteq> ''active''"
  shows "getStatus (exec M new_Dispatcher (pre @ post)) now' ident = Inr st
       \<and> cancel (exec M new_Dispatcher (pre @ post)) ident
           = (Inr (), exec M new_Dispatcher (pre @ post))"
proof -
  let ?d = "exec M new_Dispatcher pre"
  let ?d' = "exec M new_Dispatcher (pre @ post)"
  from assms(1) have f1: "feasible M new_Dispatcher pre" and f2: "feasible M ?d post"
    by (simp_all add: feasible_append)
  from f1 have w: "wf ?d" by (rule wf_reach)
  from assms(1) have w': "wf ?d'" by (rule wf_reach)
  from getStatus_registered [OF assms(2)] obtain r where r: "runList ?d ident = Some r"
    by blast
  from r assms(2,3) have outcome: "error r \<noteq> None \<or> (\<exists>v. result r = Some v \<and> truthy v)"
    by (rule getStatus_terminal_outcome)
  from w r outcome have fin: "finished r \<noteq> None" by (rule wf_outcome_finished)
  from exec_keeps [OF w f2 r fin] have r': "runList ?d' ident = Some r"
    by (simp add: exec_append)
  from getStatus_terminal_same [OF r assms(2,3) r'] cancel_finished [OF w' r' fin]
  show ?thesis by simp
qed

theorem terminal_status_frozen_witness:
  "feasible sample_module new_Dispatcher
     ([Start ''unit'' 5, Exit ''1'' (Some (ExecException ''boom'')) [] ''boom'' 9]
        @ [Cancel ''1'', Start ''unit'' 12, GetStatus ''1'' 13])
   \<and> getStatus (exec sample_module new_Dispatcher
        [Start ''unit'' 5, Exit ''1'' (Some (ExecException ''boom'')) [] ''boom'' 9]) 20 ''1''
       = Inr \<lparr>status_response.suite = ''unit'', status = ''error'', runtime = 4,
              status_response.error = Some (ExecException ''boom''), status_response.result = None\<rparr>
   \<and> getStatus (exec sample_module new_Dispatcher
        ([Start ''unit'' 5, Exit ''1'' (Some (ExecException ''boom'')) [] ''boom'' 9]
           @ [Cancel ''1'', Start ''unit'' 12, GetStatus ''1'' 13])) 30 ''1''
       = Inr \<lparr>status_response.suite = ''unit'', status = ''error'', runtime = 4,
              status_response.error = Some (ExecException ''boom''), status_response.result = None\<rparr>"
proof -
  let ?pre = "[Start ''unit'' 5, Exit ''1'' (Some (ExecException ''boom'')) [] ''boom'' 9]"
  let ?post = "[Cancel ''1'', Start ''unit'' 12, GetStatus ''1'' 13]"
  let ?st = "\<lparr>status_response.suite = ''unit'', status = ''error'', runtime = 4,
              status_response.error = Some (ExecException ''boom''), status_response.result = None\<rparr>"
  have f: "feasible sample_module new_Dispatcher (?pre @ ?post)"
    by (simp add: sample_module_def new_Dispatcher_def start_def generateId_def execFile_def
        process_exit_def on_exit_def cancel_def kill_def toString_1 toString_2)
  have g: "getStatus (exec sample_module new_Dispatcher ?pre) 20 ''1'' = Inr ?st"
    by (simp add: sample_module_def new_Dispatcher_def start_def generateId_def execFile_def
        process_exit_def on_exit_def getStatus_def toString_1)
  have a: "status ?st \<noteq> ''active''" by simp
  from f g terminal_status_frozen [OF f g a, of 30] show ?thesis by simp
qed

subsection \<open>The status computation\<close>

text \<open>
  C2. The claim derives the status from which outcome field is set and the runtime from the
  finishing time whenever there is one. \<open>getStatus\<close> tests the truth value of the fields
  instead: for a run whose decoder returned \<open>0\<close> (or \<open>null\<close>) the record has a finishing
  time and a result, and \<open>getStatus\<close> still answers \<open>active\<close> with the runtime taken from
  the clock of the call (15 at clock 20, where the run lasted 4). The methods of \<open>LocalRun\<close> on the same
  record use the finishing time: runtime 4, and a status that is not \<open>active\<close>.
\<close>

theorem getStatus_falsy_result:
  "(\<exists>r. runList (exec sample_module new_Dispatcher
             [Start ''unit'' 5, Exit ''1'' None ''0'' [] 9]) ''1'' = Some r
        \<and> finished r = Some 9 \<and> result r = Some (JNum 0) \<and> error r = None
        \<and> toStatus r = ''error'' \<and> toRuntime r 20 = 4)
   \<and> getStatus (exec sample_module new_Dispatcher
         [Start ''unit'' 5, Exit ''1'' None ''0'' [] 9]) 20 ''1''
       = Inr \<lparr>status_response.suite = ''unit'', status = ''active'', runtime = 15,
              status_response.error = None, status_response.result = None\<rparr>
   \<and> getStatus (exec sample_module new_Dispatcher
         [Start ''unit'' 5, Exit ''1'' None ''null'' [] 9]) 20 ''1''
       = Inr \<lparr>status_response.suite = ''unit'', status = ''active'', runtime = 15,
              status_response.error = None, status_response.result = None\<rparr>"
  by (simp add: sample_module_def new_Dispatcher_def start_def generateId_def execFile_def
      process_exit_def on_exit_def getStatus_def toStatus_def toRuntime_def toString_1)

subsection \<open>The completion callback\<close>

text \<open>
  C3. For a registered run the callback returns normally and replaces the record by one with
  the finishing time set to the clock of the notification and the outcome the specification's
  rule of precedence gives: an error outcome is stored in \<open>error\<close>, a decoded value in
  \<open>result\<close>; nothing else of the record changes.
\<close>

theorem on_exit_outcome:
  assumes "runList d ident = Some r"
  shows "\<exists>r'. on_exit M ident err out diag now d
               = (Inr (), d\<lparr>runList := (runList d)(ident \<mapsto> r')\<rparr>)
            \<and> finished r' = Some now
            \<and> process r' = process r \<and> suite r' = suite r \<and> started r' = started r
            \<and> (case spec_outcome M err out diag of
                  Failure e \<Rightarrow> error r' = Some e \<and> result r' = result r
                | Result v \<Rightarrow> result r' = Some v \<and> error r' = error r)"
  using assms
  by (auto simp: on_exit_def spec_outcome_def Let_def split: option.splits sum.splits)

theorem on_exit_outcome_witness:
  "runList (snd (start sample_module new_Dispatcher 5 ''unit'')) ''1''
     = Some \<lparr>process = \<lparr>killed = False, exited = False\<rparr>, suite = ''unit'', started = 5,
             finished = None, result = None, error = None\<rparr>
   \<and> (\<exists>r'. on_exit sample_module ''1'' None [] ''boom'' 9 (snd (start sample_module new_Dispatcher 5 ''unit''))
          = (Inr (), (snd (start sample_module new_Dispatcher 5 ''unit''))
                \<lparr>runList := (runList (snd (start sample_module new_Dispatcher 5 ''unit'')))(''1'' \<mapsto> r')\<rparr>)
        \<and> finished r' = Some 9 \<and> error r' = Some (Error ''boom'') \<and> result r' = None)"
proof -
  let ?d = "snd (start sample_module new_Dispatcher 5 ''unit'')"
  let ?r = "\<lparr>process = \<lparr>killed = False, exited = False\<rparr>, suite = ''unit'', started = 5,
             finished = None, result = None, error = None\<rparr>"
  have look: "runList ?d ''1'' = Some ?r"
    by (simp add: sample_module_def new_Dispatcher_def start_def generateId_def execFile_def
        toString_1)
  have oc: "spec_outcome sample_module None [] ''boom'' = Failure (Error ''boom'')"
    by (simp add: spec_outcome_def)
  from on_exit_outcome [OF look, of sample_module None "[]" "''boom''" 9] oc look
  show ?thesis by auto
qed

subsection \<open>Run records over a history\<close>

text \<open>
  C4. In every registry a history can produce, a run without a finishing time has neither
  result nor error; and a run that has a finishing time keeps its whole record, finishing
  time and outcome included, through any further history.
\<close>

theorem run_finalised_once:
  assumes "feasible M new_Dispatcher (pre @ post)"
    and "runList (exec M new_Dispatcher pre) ident = Some r"
  shows "(finished r = None \<longrightarrow> result r = None \<and> error r = None)
       \<and> (finished r \<noteq> None \<longrightarrow> runList (exec M new_Dispatcher (pre @ post)) ident = Some r)"
proof -
  let ?d = "exec M new_Dispatcher pre"
  from assms(1) have f1: "feasible M new_Dispatcher pre" and f2: "feasible M ?d post"
    by (simp_all add: feasible_append)
  from f1 have w: "wf ?d" by (rule wf_reach)
  have "result r = None \<and> error r = None" if "finished r = None"
    using wf_unfinished [OF w assms(2) that] by simp
  moreover have "runList (exec M new_Dispatcher (pre @ post)) ident = Some r"
    if "finished r \<noteq> None"
    using exec_keeps [OF w f2 assms(2) that] by (simp add: exec_append)
  ultimately show ?thesis by blast
qed

theorem run_finalised_once_witness:
  "feasible sample_module new_Dispatcher
     ([Start ''unit'' 5, Exit ''1'' None ''null'' [] 9] @ [Cancel ''1'', Start ''unit'' 12])
   \<and> runList (exec sample_module new_Dispatcher
        ([Start ''unit'' 5, Exit ''1'' None ''null'' [] 9] @ [Cancel ''1'', Start ''unit'' 12])) ''1''
       = Some \<lparr>process = \<lparr>killed = False, exited = True\<rparr>, suite = ''unit'', started = 5,
               finished = Some 9, result = Some JNull, error = None\<rparr>"
proof -
  let ?pre = "[Start ''unit'' 5, Exit ''1'' None ''null'' [] 9]"
  let ?post = "[Cancel ''1'', Start ''unit'' 12]"
  have f: "feasible sample_module new_Dispatcher (?pre @ ?post)"
    by (simp add: sample_module_def new_Dispatcher_def start_def generateId_def execFile_def
        process_exit_def on_exit_def cancel_def kill_def toString_1 toString_2)
  from f run_finalised_once [OF f sample_null_run] show ?thesis by simp
qed

subsection \<open>Identifiers\<close>

text \<open>
  A \<^verbatim>\<open>start\<close> call for a suite the catalog does not know leaves the counter where it was:
  after it, the next accepted call still returns \<open>1\<close>. The counter is therefore not
  incremented once per call whatever the call's outcome.
\<close>

theorem start_missing_keeps_counter:
  "nextId (snd (start sample_module new_Dispatcher 1 ''missing'')) \<noteq> nextId new_Dispatcher + 1
   \<and> started_ids sample_module new_Dispatcher [Start ''missing'' 1, Start ''unit'' 2] = [''1'']"
  by (simp add: sample_module_def new_Dispatcher_def start_def generateId_def execFile_def
      toString_1)

text \<open>
  C5, amended. The identifiers returned over a history are the decimal renderings of
  1, 2, ..., k in this order, where k counts the \<^verbatim>\<open>start\<close> calls whose suite the catalog
  knows; the counter ends at k + 1; the identifiers are pairwise distinct, and an identifier
  issued later renders a larger number. No other event moves the counter.
\<close>

theorem identifiers_count_accepted_starts:
  "started_ids M new_Dispatcher es
     = map toString [1 ..< Suc (length (filter (accepted M) es))]
   \<and> nextId (exec M new_Dispatcher es) = Suc (length (filter (accepted M) es))
   \<and> distinct (started_ids M new_Dispatcher es)
   \<and> (\<forall>i j. i < j \<and> j < length (started_ids M new_Dispatcher es) \<longrightarrow>
         (\<exists>m n. m < n \<and> started_ids M new_Dispatcher es ! i = toString m
                \<and> started_ids M new_Dispatcher es ! j = toString n))"
proof -
  let ?k = "length (filter (accepted M) es)"
  have ids: "started_ids M new_Dispatcher es = map toString [1 ..< Suc ?k]"
    by (simp add: started_ids_from new_Dispatcher_def)
  have cnt: "nextId (exec M new_Dispatcher es) = Suc ?k"
    by (simp add: nextId_exec new_Dispatcher_def)
  have dis: "distinct (started_ids M new_Dispatcher es)"
    unfolding ids by (rule distinct_rendered)
  have inc: "\<exists>m n. m < n \<and> started_ids M new_Dispatcher es ! i = toString m
                \<and> started_ids M new_Dispatcher es ! j = toString n"
    if "i < j \<and> j < length (started_ids M new_Dispatcher es)" for i j
  proof -
    from that have "i < j" and "j < ?k" and "i < ?k" by (simp_all add: ids del: upt_Suc)
    then have "started_ids M new_Dispatcher es ! i = toString (Suc i)"
      and "started_ids M new_Dispatcher es ! j = toString (Suc j)"
      by (simp_all add: ids nth_map_upt del: upt_Suc)
    with \<open>i < j\<close> show ?thesis by (metis Suc_less_eq)
  qed
  from ids cnt dis inc show ?thesis by blast
qed

theorem identifiers_count_accepted_starts_witness:
  "started_ids sample_module new_Dispatcher
       [Start ''unit'' 1, Start ''missing'' 2, Cancel ''1'', Start ''unit'' 3] = [''1'', ''2'']
   \<and> nextId (exec sample_module new_Dispatcher
       [Start ''unit'' 1, Start ''missing'' 2, Cancel ''1'', Start ''unit'' 3]) = 3"
proof -
  have "length (filter (accepted sample_module)
          [Start ''unit'' 1, Start ''missing'' 2, Cancel ''1'', Start ''unit'' 3]) = 2"
    by (simp add: sample_module_def)
  with identifiers_count_accepted_starts
         [of sample_module "[Start ''unit'' 1, Start ''missing'' 2, Cancel ''1'', Start ''unit'' 3]"]
  show ?thesis
    by (simp add: toString_1 toString_2 upt_conv_Cons)
qed

subsection \<open>Unknown suites and unknown identifiers\<close>

text \<open>
  C6. \<^verbatim>\<open>start\<close> on a suite the catalog reports unknown throws \<open>NotFound\<close> of that suite
  and leaves the whole state as it was: the run table, the counter and the log of launched
  commands.
\<close>

theorem start_unknown_suite:
  "\<not> has M s \<Longrightarrow> start M d now s = (Inl (NotFound s), d)"
  by (simp add: start_def)

theorem start_unknown_suite_witness:
  "\<not> has sample_module ''missing''
   \<and> start sample_module (snd (start sample_module new_Dispatcher 5 ''unit'')) 6 ''missing''
       = (Inl (NotFound ''missing''), snd (start sample_module new_Dispatcher 5 ''unit''))"
proof -
  have h: "\<not> has sample_module ''missing''" by (simp add: sample_module_def)
  from h start_unknown_suite [OF h] show ?thesis by simp
qed

text \<open>
  C7. In every registry a history can produce: \<open>getStatus\<close> and \<open>cancel\<close> on an identifier
  without a run record throw \<open>NotFound\<close> of that identifier; whatever \<^verbatim>\<open>start\<close>,
  \<open>getStatus\<close> or \<open>cancel\<close> throw is a \<open>NotFound\<close> of their argument; the completion
  notification of a run returns normally; and an error recorded for a run is handed out by
  \<open>getStatus\<close> as the \<open>error\<close> field of a normal answer.
\<close>

theorem only_NotFound_thrown:
  assumes "feasible M new_Dispatcher es" and "d = exec M new_Dispatcher es"
  shows "(runList d ident = None \<longrightarrow>
            getStatus d now ident = Inl (NotFound ident)
            \<and> cancel d ident = (Inl (NotFound ident), d))
       \<and> (\<forall>e. fst (start M d now s) = Inl e \<longrightarrow> e = NotFound s)
       \<and> (\<forall>e. getStatus d now ident = Inl e \<longrightarrow> e = NotFound ident)
       \<and> (\<forall>e. fst (cancel d ident) = Inl e \<longrightarrow> e = NotFound ident)
       \<and> (enabled d (Exit ident err out diag now) \<longrightarrow>
            fst (process_exit M ident err out diag now d) = Inr ())
       \<and> (\<forall>r e. runList d ident = Some r \<and> error r = Some e \<longrightarrow>
            (\<exists>st. getStatus d now ident = Inr st \<and> status_response.error st = Some e))"
proof -
  from assms have w: "wf d" by (simp add: wf_reach)
  have a: "getStatus d now ident = Inl (NotFound ident) \<and> cancel d ident = (Inl (NotFound ident), d)"
    if "runList d ident = None"
    using that by (simp add: getStatus_def cancel_def)
  have b: "e = NotFound s" if "fst (start M d now s) = Inl e" for e
    using that by (simp add: fst_start split: if_splits)
  have c: "e = NotFound ident" if "getStatus d now ident = Inl e" for e
  proof (cases "runList d ident")
    case None
    with that show ?thesis by (simp add: getStatus_def)
  next
    case (Some r)
    show ?thesis
    proof (cases "finished r")
      case None
      with wf_unfinished [OF w Some] have "result r = None" "error r = None" by simp_all
      with Some that show ?thesis by (simp add: getStatus_def)
    next
      case fin: (Some f)
      with Some that show ?thesis
        by (simp add: getStatus_def split: option.splits if_splits)
    qed
  qed
  have d: "e = NotFound ident" if "fst (cancel d ident) = Inl e" for e
    using that by (simp add: cancel_def split: option.splits)
  have e: "fst (process_exit M ident err out diag now d) = Inr ()"
    if "enabled d (Exit ident err out diag now)"
    using that by (simp add: process_exit_def on_exit_def Let_def split: option.splits)
  have f: "\<exists>st. getStatus d now ident = Inr st \<and> status_response.error st = Some e"
    if "runList d ident = Some r \<and> error r = Some e" for r e
  proof -
    from that have "error r \<noteq> None" by simp
    with w that obtain t where "finished r = Some t"
      using wf_outcome_finished [of d ident r] by auto
    with that show ?thesis by (simp add: getStatus_def)
  qed
  from a b c d e f show ?thesis by blast
qed

theorem only_NotFound_thrown_witness:
  "getStatus (exec sample_module new_Dispatcher
       [Start ''unit'' 5, Exit ''1'' None [] ''boom'' 9]) 20 ''7'' = Inl (NotFound ''7'')
   \<and> fst (cancel (exec sample_module new_Dispatcher
       [Start ''unit'' 5, Exit ''1'' None [] ''boom'' 9]) ''7'') = Inl (NotFound ''7'')
   \<and> (\<exists>st. getStatus (exec sample_module new_Dispatcher
       [Start ''unit'' 5, Exit ''1'' None [] ''boom'' 9]) 20 ''1'' = Inr st
         \<and> status_response.error st = Some (Error ''boom''))"
proof -
  let ?d = "exec sample_module new_Dispatcher [Start ''unit'' 5, Exit ''1'' None [] ''boom'' 9]"
  have none: "runList ?d ''7'' = None"
    by (simp add: sample_module_def new_Dispatcher_def start_def generateId_def execFile_def
        process_exit_def on_exit_def toString_1)
  from only_NotFound_thrown [OF sample_boom_feasible refl, of "''7''" 20] none
  have "getStatus ?d 20 ''7'' = Inl (NotFound ''7'')
          \<and> cancel ?d ''7'' = (Inl (NotFound ''7''), ?d)"
    by blast
  then have "getStatus ?d 20 ''7'' = Inl (NotFound ''7'')"
    and "fst (cancel ?d ''7'') = Inl (NotFound ''7'')"
    by (simp_all only: fst_conv)
  moreover
  from only_NotFound_thrown [OF sample_boom_feasible refl, of "''1''" 20] sample_boom_run
  have "\<exists>st. getStatus ?d 20 ''1'' = Inr st \<and> status_response.error st = Some (Error ''boom'')"
    by (metis run.select_convs(6))
  ultimately show ?thesis by blast
qed

subsection \<open>Right after \<^verbatim>\<open>start\<close>\<close>

text \<open>
  C8. If \<^verbatim>\<open>start\<close> returned an identifier at clock \<open>t0\<close>, then \<open>getStatus\<close> on the
  resulting state at a clock \<open>t1\<close> that is not earlier answers \<open>active\<close> with the runtime
  \<open>t1 - t0\<close>, which is not negative.
\<close>

theorem active_after_start:
  assumes "fst (start M d t0 s) = Inr ident" and "t0 \<le> t1"
  shows "getStatus (snd (start M d t0 s)) t1 ident
           = Inr \<lparr>status_response.suite = s, status = ''active'', runtime = t1 - t0,
                  status_response.error = None, status_response.result = None\<rparr>
         \<and> 0 \<le> t1 - t0"
  using assms
  by (auto simp: start_def generateId_def execFile_def getStatus_def split: if_splits)

theorem active_after_start_witness:
  "fst (start sample_module new_Dispatcher 5 ''unit'') = Inr ''1'' \<and> (5::int) \<le> 7
   \<and> getStatus (snd (start sample_module new_Dispatcher 5 ''unit'')) 7 ''1''
       = Inr \<lparr>status_response.suite = ''unit'', status = ''active'', runtime = 2,
              status_response.error = None, status_response.result = None\<rparr>"
proof -
  have a: "fst (start sample_module new_Dispatcher 5 ''unit'') = Inr ''1''"
    by (simp add: sample_module_def new_Dispatcher_def start_def generateId_def execFile_def
        toString_1)
  have b: "(5::int) \<le> 7" by simp
  from a active_after_start [OF a b] show ?thesis by simp
qed

subsection \<open>Falsy results\<close>

text \<open>
  C9. When the process ends without a reported error, the diagnostic rule does not apply and
  the decoder returns a falsy value, the run record gets the finishing time and that value as
  its result, and after any further history \<open>getStatus\<close> answers \<open>active\<close> with the runtime
  measured from the clock of the call.
\<close>

theorem falsy_result_stays_active:
  assumes "feasible M new_Dispatcher (pre @ Exit ident None out diag t # post)"
    and "\<not> (out = [] \<and> diag \<noteq> [])"
    and "decodeResult M out = Inr v" and "\<not> truthy v"
  shows "\<exists>r. runList (exec M new_Dispatcher (pre @ [Exit ident None out diag t])) ident = Some r
           \<and> finished r = Some t \<and> result r = Some v \<and> error r = None
           \<and> getStatus (exec M new_Dispatcher (pre @ Exit ident None out diag t # post)) now ident
               = Inr \<lparr>status_response.suite = suite r, status = ''active'',
                      runtime = now - started r,
                      status_response.error = None, status_response.result = None\<rparr>"
proof -
  let ?d0 = "exec M new_Dispatcher pre"
  let ?ev = "Exit ident None out diag t"
  let ?d1 = "apply_event M ?d0 ?ev"
  from assms(1) have f0: "feasible M new_Dispatcher pre" and en: "enabled ?d0 ?ev"
    and f1: "feasible M ?d1 post"
    by (simp_all add: feasible_append)
  from f0 have w0: "wf ?d0" by (rule wf_reach)
  then have w1: "wf ?d1" by (rule wf_apply_event)
  from en obtain r0 where r0: "runList ?d0 ident = Some r0" and live: "\<not> exited (process r0)"
    by (auto split: option.splits)
  from w0 r0 live have "finished r0 = None" unfolding wf_def by blast
  from wf_unfinished [OF w0 r0 this] have clean: "result r0 = None" "error r0 = None"
    by simp_all
  define r where "r = r0\<lparr>process := (process r0)\<lparr>exited := True\<rparr>, finished := Some t,
                        result := Some v\<rparr>"
  from r0 assms(2,3) have r1: "runList ?d1 ident = Some r"
    by (auto simp: process_exit_def on_exit_def Let_def r_def)
  have fin: "finished r \<noteq> None" by (simp add: r_def)
  from exec_keeps [OF w1 f1 r1 fin]
  have keep: "runList (exec M new_Dispatcher (pre @ ?ev # post)) ident = Some r"
    by (simp add: exec_append)
  from r1 have "runList (exec M new_Dispatcher (pre @ [?ev])) ident = Some r"
    by (simp add: exec_append)
  moreover have "finished r = Some t" "result r = Some v" "error r = None"
    using clean by (simp_all add: r_def)
  moreover from keep this assms(4)
  have "getStatus (exec M new_Dispatcher (pre @ ?ev # post)) now ident
          = Inr \<lparr>status_response.suite = suite r, status = ''active'',
                 runtime = now - started r,
                 status_response.error = None, status_response.result = None\<rparr>"
    by (simp add: getStatus_def)
  ultimately show ?thesis by blast
qed

theorem falsy_result_stays_active_witness:
  "decodeResult sample_module ''null'' = Inr JNull \<and> \<not> truthy JNull
   \<and> (\<exists>r. runList (exec sample_module new_Dispatcher
              ([Start ''unit'' 5] @ [Exit ''1'' None ''null'' [] 9])) ''1'' = Some r
        \<and> finished r = Some 9 \<and> result r = Some JNull
        \<and> getStatus (exec sample_module new_Dispatcher
              ([Start ''unit'' 5] @ Exit ''1'' None ''null'' [] 9 # [Cancel ''1'', GetStatus ''1'' 11]))
              40 ''1''
            = Inr \<lparr>status_response.suite = suite r, status = ''active'',
                   runtime = 40 - started r,
                   status_response.error = None, status_response.result = None\<rparr>)"
proof -
  have f: "feasible sample_module new_Dispatcher
             ([Start ''unit'' 5] @ Exit ''1'' None ''null'' [] 9 # [Cancel ''1'', GetStatus ''1'' 11])"
    by (simp add: sample_module_def new_Dispatcher_def start_def generateId_def execFile_def
        process_exit_def on_exit_def cancel_def kill_def toString_1)
  have o: "\<not> (''null'' = [] \<and> ([]::string) \<noteq> [])" by simp
  have dec: "decodeResult sample_module ''null'' = Inr JNull" by (simp add: sample_module_def)
  have n: "\<not> truthy JNull" by simp
  from falsy_result_stays_active [OF f o dec n, of 40] dec n show ?thesis by blast
qed

subsection \<open>The unchecked reads of the finishing time\<close>

text \<open>
  C10. In every registry a history can produce, a run with an error, or with a truthy result,
  has a finishing time; \<open>getStatus\<close> then answers normally, with the runtime taken from that
  finishing time.
\<close>

theorem outcome_implies_finished:
  assumes "feasible M new_Dispatcher es"
    and "runList (exec M new_Dispatcher es) ident = Some r"
    and "error r \<noteq> None \<or> (\<exists>v. result r = Some v \<and> truthy v)"
  shows "\<exists>f st. finished r = Some f
           \<and> getStatus (exec M new_Dispatcher es) now ident = Inr st
           \<and> runtime st = f - started r"
proof -
  from assms(1) have "wf (exec M new_Dispatcher es)" by (rule wf_reach)
  from wf_outcome_finished [OF this assms(2,3)] obtain f where f: "finished r = Some f"
    by blast
  with assms(2,3) show ?thesis
    by (auto simp: getStatus_def split: option.splits)
qed

theorem outcome_implies_finished_witness:
  "\<exists>st. getStatus (exec sample_module new_Dispatcher
            [Start ''unit'' 5, Exit ''1'' None [] ''boom'' 9]) 20 ''1'' = Inr st
        \<and> runtime st = 4"
proof -
  let ?r = "\<lparr>process = \<lparr>killed = False, exited = True\<rparr>, suite = ''unit'', started = 5,
             finished = Some 9, result = None, error = Some (Error ''boom'')\<rparr>"
  have "error ?r \<noteq> None \<or> (\<exists>v. result ?r = Some v \<and> truthy v)" by simp
  from outcome_implies_finished [OF sample_boom_feasible sample_boom_run this, of 20]
  show ?thesis by auto
qed

end
